theory Spec2Isabelle
  imports Main
begin

section \<open>The file system and the processes pshaw talks to\<close>

text \<open>
  pshaw.py keeps a session in a directory \<^verbatim>\<open>~/.pshaw/<label>\<close> and works on it through
  pathlib, shutil and three external programs (flock, tail and the shell under a pty).
  A path is the list of its components below the root; a file system maps a path to a
  directory or to a regular file with its bytes. The root itself is always a directory.
\<close>

type_synonym path = "string list"

datatype node = Dir | File string

type_synonym filesystem = "path \<rightharpoonup> node"

text \<open>The Python exceptions the modelled calls raise.\<close>

datatype exn =
    FileNotFoundError
  | NotADirectoryError
  | IsADirectoryError
  | FileExistsError
  | ShutilError
  | KeyError
  | ValueError

definition is_dir :: "filesystem \<Rightarrow> path \<Rightarrow> bool" where
  "is_dir f p = (p = [] \<or> f p = Some Dir)"

definition path_exists :: "filesystem \<Rightarrow> path \<Rightarrow> bool" where
  "path_exists f p = (p = [] \<or> f p \<noteq> None)"

definition parent :: "path \<Rightarrow> path" where
  "parent p = butlast p"

text \<open>
  Opening a path needs its parent to be a directory: \<open>ENOENT\<close> when the parent is
  missing, \<open>ENOTDIR\<close> when it is a regular file.
\<close>

definition check_parent :: "filesystem \<Rightarrow> path \<Rightarrow> exn option" where
  "check_parent f p =
     (if \<not> path_exists f (parent p) then Some FileNotFoundError
      else if \<not> is_dir f (parent p) then Some NotADirectoryError
      else None)"

text \<open>\<^verbatim>\<open>open(p, 'rb').read()\<close>\<close>

definition read_file :: "path \<Rightarrow> filesystem \<Rightarrow> exn + string" where
  "read_file p f =
     (case check_parent f p of
        Some e \<Rightarrow> Inl e
      | None \<Rightarrow>
          (if p = [] then Inl IsADirectoryError
           else case f p of
             None \<Rightarrow> Inl FileNotFoundError
           | Some Dir \<Rightarrow> Inl IsADirectoryError
           | Some (File bs) \<Rightarrow> Inr bs))"

text \<open>\<^verbatim>\<open>open(p, 'wb')\<close> followed by one write, and \<^verbatim>\<open>Path.write_text\<close>:
  the file is created or emptied, then holds the data.\<close>

definition write_file :: "path \<Rightarrow> string \<Rightarrow> filesystem \<Rightarrow> exn + filesystem" where
  "write_file p bs f =
     (case check_parent f p of
        Some e \<Rightarrow> Inl e
      | None \<Rightarrow>
          (if is_dir f p then Inl IsADirectoryError
           else Inr (f(p \<mapsto> File bs))))"

text \<open>\<^verbatim>\<open>open(p, 'ab')\<close> followed by writes: the file is created when missing and the
  data goes after what it holds.\<close>

definition append_file :: "path \<Rightarrow> string \<Rightarrow> filesystem \<Rightarrow> exn + filesystem" where
  "append_file p bs f =
     (case check_parent f p of
        Some e \<Rightarrow> Inl e
      | None \<Rightarrow>
          (if p = [] then Inl IsADirectoryError
           else case f p of
             None \<Rightarrow> Inr (f(p \<mapsto> File bs))
           | Some Dir \<Rightarrow> Inl IsADirectoryError
           | Some (File old) \<Rightarrow> Inr (f(p \<mapsto> File (old @ bs)))))"

text \<open>\<^verbatim>\<open>Path.touch()\<close>: creates an empty file, leaves an existing entry as it is.\<close>

definition touch :: "path \<Rightarrow> filesystem \<Rightarrow> exn + filesystem" where
  "touch p f =
     (case check_parent f p of
        Some e \<Rightarrow> Inl e
      | None \<Rightarrow> (if path_exists f p then Inr f else Inr (f(p \<mapsto> File []))))"

text \<open>
  \<^verbatim>\<open>Path.mkdir(parents=True, exist_ok=True)\<close>: every missing directory on the way is
  created; a regular file on the way is \<open>ENOTDIR\<close>, a regular file at the path itself
  is \<open>EEXIST\<close>.
\<close>

fun mkdir_from :: "path \<Rightarrow> string list \<Rightarrow> filesystem \<Rightarrow> exn + filesystem" where
  "mkdir_from pre [] f = Inr f"
| "mkdir_from pre (c # cs) f =
     (case f (pre @ [c]) of
        Some (File bs) \<Rightarrow> Inl (if cs = [] then FileExistsError else NotADirectoryError)
      | Some Dir \<Rightarrow> mkdir_from (pre @ [c]) cs f
      | None \<Rightarrow> mkdir_from (pre @ [c]) cs (f(pre @ [c] \<mapsto> Dir)))"

definition mkdir_parents :: "path \<Rightarrow> filesystem \<Rightarrow> exn + filesystem" where
  "mkdir_parents p f = mkdir_from [] p f"

text \<open>
  \<^verbatim>\<open>shutil.move(src, dst)\<close>. A destination that is a directory receives the source under
  the source's own name and must not hold that name yet. Then the source is renamed:
  a regular file replaces a regular file or a free name in an existing directory; a
  directory moves with everything below it to a free name that is not inside it.
\<close>

definition below :: "path \<Rightarrow> path \<Rightarrow> bool" where
  "below d p = (take (length d) p = d)"

definition reroot :: "path \<Rightarrow> path \<Rightarrow> filesystem \<Rightarrow> filesystem" where
  "reroot src dst f =
     (\<lambda>p. if below dst p then f (src @ drop (length dst) p)
          else if below src p then None
          else f p)"

definition move :: "path \<Rightarrow> path \<Rightarrow> filesystem \<Rightarrow> exn + filesystem" where
  "move src dst f =
     (if is_dir f dst \<and> src = dst then Inr f
      else
        let real_dst = (if is_dir f dst then dst @ [last src] else dst) in
        if is_dir f dst \<and> path_exists f real_dst then Inl ShutilError
        else if src = [] then Inl ShutilError
        else case f src of
          None \<Rightarrow> Inl FileNotFoundError
        | Some (File bs) \<Rightarrow>
            (case check_parent f real_dst of
               Some e \<Rightarrow> Inl e
             | None \<Rightarrow> Inr ((f(src := None))(real_dst \<mapsto> File bs)))
        | Some Dir \<Rightarrow>
            (if path_exists f real_dst then Inl FileExistsError
             else if below src real_dst then Inl ShutilError
             else case mkdir_parents (parent real_dst) f of
               Inl e \<Rightarrow> Inl e
             | Inr f1 \<Rightarrow> Inr (reroot src real_dst f1)))"

subsection \<open>The process and what surrounds it\<close>

text \<open>
  What the program changes: the file system, and the bytes it has written to standard
  output (the real terminal) and to standard error.
\<close>

record world =
  fs :: filesystem
  out :: string
  err :: string

text \<open>
  How a run of the program ends: \<open>main()\<close> returns (exit status 0), \<open>exit(n)\<close> is
  called, or an exception reaches the top level.
\<close>

datatype outcome = Returned | Exited int | Raised exn

text \<open>
  An external process ends with an exit code or by a signal. \<^verbatim>\<open>pty.spawn\<close> returns
  \<^verbatim>\<open>os.waitpid(pid, 0)[1]\<close>, the wait status: the exit code in the high byte, or the
  signal number in the low seven bits with the core flag above them.
  \<^verbatim>\<open>subprocess.run(...).returncode\<close> is the exit code itself.
\<close>

datatype ending = ExitCode nat | Killed nat bool

fun waitstatus :: "ending \<Rightarrow> int" where
  "waitstatus (ExitCode c) = 256 * int (c mod 256)"
| "waitstatus (Killed sig core) = int (sig mod 128) + (if core then 128 else 0)"

text \<open>
  One run of the command under the pty: the chunks that successive \<^verbatim>\<open>os.read(fd, 1024)\<close>
  deliver from the child, how the child ends, and what the child itself (flock, then the
  shell) does to the file system: the lock file, the history, the workdir file.
\<close>

record child_run =
  chunks :: "string list"
  ended :: ending
  child_fs :: "filesystem \<Rightarrow> filesystem"

text \<open>
  What the program reads from its surroundings: \<^verbatim>\<open>Path.home()\<close>, \<^verbatim>\<open>Path.cwd()\<close>,
  \<^verbatim>\<open>os.environ['SHELL']\<close> (which may be unset), whether another process holds the lock
  of the session when it is probed, the run of the command given to \<^verbatim>\<open>pty.spawn\<close>, and
  the order in which a directory lists its names.
\<close>

record env =
  home :: path
  cwd :: path
  shell_var :: "string option"
  lock_held :: bool
  spawn :: "string list \<Rightarrow> child_run"
  dir_order :: "string list"

text \<open>\<^verbatim>\<open>str(path)\<close>\<close>

definition path_str :: "path \<Rightarrow> string" where
  "path_str p = (if p = [] then ''/'' else concat (map (\<lambda>c. CHR ''/'' # c) p))"

text \<open>
  \<^verbatim>\<open>flock --nonblock --conflict-exit-code 200 lockpath /bin/true\<close>: 200 when the lock is
  held elsewhere; otherwise flock opens the lock file, creating it when it is missing,
  runs the command and exits with its code; 66 when the lock file cannot be opened.
\<close>

definition flock_probe :: "env \<Rightarrow> path \<Rightarrow> filesystem \<Rightarrow> int \<times> filesystem" where
  "flock_probe e lockpath f =
     (if lock_held e then (200, f)
      else if path_exists f lockpath then (0, f)
      else if is_dir f (parent lockpath) then (0, f(lockpath \<mapsto> File []))
      else (66, f))"

text \<open>
  \<^verbatim>\<open>str.format(**data)\<close> on a template whose only braces are \<^verbatim>\<open>{name}\<close> fields: the
  second argument is the field name being read, if any. A brace that does not close or
  open a field is a \<open>ValueError\<close>, a name that is not in the dictionary a \<open>KeyError\<close>.
\<close>

fun format_py :: "(string \<rightharpoonup> string) \<Rightarrow> string option \<Rightarrow> string \<Rightarrow> exn + string" where
  "format_py d None [] = Inr []"
| "format_py d (Some n) [] = Inl ValueError"
| "format_py d None (c # cs) =
     (if c = CHR ''{'' then format_py d (Some []) cs
      else if c = CHR ''}'' then Inl ValueError
      else (case format_py d None cs of Inl x \<Rightarrow> Inl x | Inr t \<Rightarrow> Inr (c # t)))"
| "format_py d (Some n) (c # cs) =
     (if c = CHR ''}'' then
        (case d n of
           None \<Rightarrow> Inl KeyError
         | Some v \<Rightarrow> (case format_py d None cs of Inl x \<Rightarrow> Inl x | Inr t \<Rightarrow> Inr (v @ t)))
      else if c = CHR ''{'' then Inl ValueError
      else format_py d (Some (n @ [c])) cs)"

subsection \<open>tail\<close>

text \<open>
  \<^verbatim>\<open>tail -n K file\<close> prints the last \<open>K\<close> lines of a regular file. It walks back from
  the end of the file counting newlines; a last line without its newline counts as a
  line; it stops in front of the newline that ends the line before the \<open>K\<close> wanted.
  \<^verbatim>\<open>str(size)\<close> of a negative size is \<^verbatim>\<open>-K\<close>, which tail reads as \<open>K\<close> too.
  A count of \<open>2 ^ 64\<close> or more is refused (\<^verbatim>\<open>invalid number of lines\<close>) and nothing is
  printed. On a directory or a missing file tail prints nothing to its standard output.
\<close>

definition tail_limit :: nat where
  "tail_limit = 2 ^ 64"

definition nl :: char where
  "nl = CHR 0x0A"

fun take_until_nl :: "nat \<Rightarrow> string \<Rightarrow> string" where
  "take_until_nl k [] = []"
| "take_until_nl k (c # cs) =
     (if c = nl then (case k of 0 \<Rightarrow> [] | Suc j \<Rightarrow> c # take_until_nl j cs)
      else c # take_until_nl k cs)"

definition tail_n :: "int \<Rightarrow> string \<Rightarrow> string" where
  "tail_n sz bs =
     (let k = nat \<bar>sz\<bar>; r = rev bs in
      if k = 0 \<or> tail_limit \<le> k then []
      else rev (take_until_nl (if r \<noteq> [] \<and> hd r \<noteq> nl then k - 1 else k) r))"

definition tail_cmd :: "int \<Rightarrow> path \<Rightarrow> filesystem \<Rightarrow> string" where
  "tail_cmd sz p f = (case f p of Some (File bs) \<Rightarrow> tail_n sz bs | _ \<Rightarrow> [])"

text \<open>
  The lines of a byte string, each with its newline; a last line that lacks the newline
  is a line as well. This is what the line counts \<open>N\<close> and \<open>M\<close> of a rotation count.
\<close>

fun split_lines :: "string \<Rightarrow> string list" where
  "split_lines [] = []"
| "split_lines (c # cs) =
     (if c = nl then [c] # split_lines cs
      else (case split_lines cs of [] \<Rightarrow> [[c]] | l # ls \<Rightarrow> (c # l) # ls))"

text \<open>Skipping whole lines from the front, the forward reading of what tail keeps.\<close>

fun drop_lines :: "nat \<Rightarrow> string \<Rightarrow> string" where
  "drop_lines 0 bs = bs"
| "drop_lines (Suc j) [] = []"
| "drop_lines (Suc j) (c # cs) = (if c = nl then drop_lines j cs else drop_lines (Suc j) cs)"

definition cnt :: "string \<Rightarrow> nat" where
  "cnt bs = length (filter (\<lambda>c. c = nl) bs)"

section \<open>pshaw.py\<close>

subsection \<open>truncate\<close>

text \<open>
  \<^verbatim>\<open>
  def truncate(path, oldpath, size):
      shutil.move(path, oldpath)
      with path.open('wb') as file:
          with subprocess.Popen(['tail', '-n', str(size), str(oldpath)],
                                stdout=subprocess.PIPE) as child:
              file.write(child.stdout.read())
  \<close>
  The file is opened, and so emptied, before tail reads \<open>oldpath\<close>. The result is the
  exception raised, if any, and the file system as the call leaves it.
\<close>

definition truncate :: "path \<Rightarrow> path \<Rightarrow> int \<Rightarrow> filesystem \<Rightarrow> exn option \<times> filesystem" where
  "truncate p oldpath sz f =
     (case move p oldpath f of
        Inl e \<Rightarrow> (Some e, f)
      | Inr f1 \<Rightarrow>
          (case write_file p [] f1 of
             Inl e \<Rightarrow> (Some e, f1)
           | Inr f2 \<Rightarrow> (None, f2(p \<mapsto> File (tail_cmd sz oldpath f2)))))"

subsection \<open>Constants\<close>

definition logsize :: int where
  "logsize = 1000000"

definition historysize :: int where
  "historysize = 1000000"

definition usage_message :: string where
  "usage_message =
     ''Usage:\<newline>\<newline>'' @
     ''    pshaw create <label>\<newline>'' @
     ''    pshaw connect <label>\<newline>'' @
     ''    pshaw list\<newline>\<newline>'' @
     ''create  -- Create a new session using <label> as the identifier and run a shell in that session.\<newline>\<newline>'' @
     ''connect -- Connect to an existing session with identifier <label>\<newline>\<newline>'' @
     ''list    -- List all sessions\<newline>\<newline>''"

text \<open>
  \<^verbatim>\<open>
  def command_bash(lockpath='', shell='', initpath=''):
      return ['flock', '--nonblock', '--conflict-exit-code', '200', str(lockpath),
              str(shell), '--init-file', str(initpath), '-i']
  \<close>
\<close>

definition command_bash :: "path \<Rightarrow> string \<Rightarrow> path \<Rightarrow> string list" where
  "command_bash lockpath shell initpath =
     [''flock'', ''--nonblock'', ''--conflict-exit-code'', ''200'', path_str lockpath,
      shell, ''--init-file'', path_str initpath, ''-i'']"

definition init_bash :: string where
  \<open>init_bash =
     ''\<newline>\<newline>'' @
     ''PSHAW_LABEL={label}\<newline>'' @
     ''source {rcpath}\<newline>'' @
     ''\<newline>'' @
     ''shopt -s histappend\<newline>'' @
     ''HISTFILE={historypath}\<newline>'' @
     ''cd `cat {workpath}`\<newline>'' @
     ''PROMPT_COMMAND="history -a; pwd > {workpath}; $PROMPT_COMMAND"\<newline>'' @
     ''\<newline>'' @
     ''echo === Connected to session {label} ===\<newline>'' @
     ''\<newline>''\<close>

subsection \<open>usage\<close>

text \<open>
  \<^verbatim>\<open>
  def usage():
      sys.stderr.write(usage_message)
      exit(1)
  \<close>
\<close>

definition usage :: "world \<Rightarrow> outcome \<times> world" where
  "usage w = (Exited 1, w\<lparr>err := err w @ usage_message\<rparr>)"

text \<open>Statements in sequence: what follows runs only when what precedes fell through.\<close>

definition and_then :: "outcome \<times> world \<Rightarrow> (world \<Rightarrow> outcome \<times> world) \<Rightarrow> outcome \<times> world" where
  "and_then r k = (case r of (Returned, w) \<Rightarrow> k w | (x, w) \<Rightarrow> (x, w))"

subsection \<open>The paths of a session\<close>

text \<open>
  \<^verbatim>\<open>basepath = Path.home() / '.pshaw' / label\<close> and the files below it. pathlib splits
  the label at its slashes and drops the empty components and the components \<^verbatim>\<open>.\<close>; a
  label that begins with a slash is an absolute path and replaces what stands before it.
  A component \<^verbatim>\<open>..\<close> stays a component of the path, and a path is looked up by its
  components as they stand. pathlib keeps the two slashes of a label that begins with
  exactly two in \<^verbatim>\<open>str(path)\<close>; here such a label is absolute like any other.
\<close>

fun split_slash :: "string \<Rightarrow> string list" where
  "split_slash [] = [[]]"
| "split_slash (c # cs) =
     (if c = CHR ''/'' then [] # split_slash cs
      else (case split_slash cs of [] \<Rightarrow> [[c]] | x # xs \<Rightarrow> (c # x) # xs))"

definition label_parts :: "string \<Rightarrow> string list" where
  "label_parts label = filter (\<lambda>x. x \<noteq> [] \<and> x \<noteq> ''.'') (split_slash label)"

definition basepath :: "env \<Rightarrow> string \<Rightarrow> path" where
  "basepath e label =
     (if label \<noteq> [] \<and> hd label = CHR ''/'' then label_parts label
      else home e @ [''.pshaw''] @ label_parts label)"

definition initpath :: "env \<Rightarrow> string \<Rightarrow> path" where
  "initpath e label = basepath e label @ [''init.bash'']"

definition lockpath :: "env \<Rightarrow> string \<Rightarrow> path" where
  "lockpath e label = basepath e label @ [''lock'']"

definition workpath :: "env \<Rightarrow> string \<Rightarrow> path" where
  "workpath e label = basepath e label @ [''workdir'']"

definition logpath :: "env \<Rightarrow> string \<Rightarrow> path" where
  "logpath e label = basepath e label @ [''log'']"

definition historypath :: "env \<Rightarrow> string \<Rightarrow> path" where
  "historypath e label = basepath e label @ [''history'']"

subsection \<open>run\<close>

definition lock_message :: "env \<Rightarrow> string \<Rightarrow> string" where
  \<open>lock_message e label =
     ''Cannot connect to session "'' @ label @
     ''": Session locked. If you are sure you are not already using this session, you can rm '' @
     path_str (lockpath e label) @ '' to unlock it.\<newline>''\<close>

text \<open>
  \<^verbatim>\<open>
      status = subprocess.run(['flock', '--nonblock', '--conflict-exit-code', '200',
                               str(lockpath), '/bin/true']).returncode
      if status == 200:
          sys.stderr.write('Cannot connect to session "{}": Session locked. ...')
          exit(1)
  \<close>
\<close>

definition probe_lock :: "env \<Rightarrow> string \<Rightarrow> world \<Rightarrow> outcome \<times> world" where
  "probe_lock e label w =
     (case flock_probe e (lockpath e label) (fs w) of
        (status, f1) \<Rightarrow>
          if status = 200 then (Exited 1, w\<lparr>fs := f1, err := err w @ lock_message e label\<rparr>)
          else (Returned, w\<lparr>fs := f1\<rparr>))"

text \<open>
  \<^verbatim>\<open>
      data = {
          'label': label,
          'rcpath': str(Path.home() / '.bashrc'),
          'workpath': workpath,
          'historypath': historypath,
      }
      initpath.write_text(init_bash.format(**data), 'utf8')
  \<close>
\<close>

definition init_data :: "env \<Rightarrow> string \<Rightarrow> (string \<rightharpoonup> string)" where
  "init_data e label =
     [''label'' \<mapsto> label,
      ''rcpath'' \<mapsto> path_str (home e @ [''.bashrc'']),
      ''workpath'' \<mapsto> path_str (workpath e label),
      ''historypath'' \<mapsto> path_str (historypath e label)]"

definition init_script :: "env \<Rightarrow> string \<Rightarrow> exn + string" where
  "init_script e label = format_py (init_data e label) None init_bash"

definition write_init :: "env \<Rightarrow> string \<Rightarrow> world \<Rightarrow> outcome \<times> world" where
  "write_init e label w =
     (case init_script e label of
        Inl x \<Rightarrow> (Raised x, w)
      | Inr script \<Rightarrow>
          (case write_file (initpath e label) script (fs w) of
             Inl x \<Rightarrow> (Raised x, w)
           | Inr f1 \<Rightarrow> (Returned, w\<lparr>fs := f1\<rparr>)))"

text \<open>
  \<^verbatim>\<open>
      sys.stdout.buffer.write(b'\033c')
      with logpath.open('rb') as logfile:
          sys.stdout.buffer.write(logfile.read())
      sys.stdout.buffer.flush()
  \<close>
\<close>

definition clear_terminal :: string where
  "clear_terminal = [CHR 0x1B, CHR ''c'']"

definition replay :: "env \<Rightarrow> string \<Rightarrow> world \<Rightarrow> outcome \<times> world" where
  "replay e label w =
     (case read_file (logpath e label) (fs w) of
        Inl x \<Rightarrow> (Raised x, w\<lparr>out := out w @ clear_terminal\<rparr>)
      | Inr bs \<Rightarrow> (Returned, w\<lparr>out := out w @ clear_terminal @ bs\<rparr>))"

text \<open>
  \<^verbatim>\<open>
      with logpath.open('ab') as logfile:
          def read(fd):
              data = os.read(fd, 1024)
              logfile.write(data)
              return data
          command = command_bash(shell=shell, initpath=initpath, lockpath=lockpath)
          status = pty.spawn(command, read)
  \<close>
  \<^verbatim>\<open>pty.spawn\<close> copies what \<open>read\<close> returns to standard output. The log is written
  through the file opened before the child started; when the child has put something
  else at the path, the path does not show the writes.
\<close>

definition log_written :: "path \<Rightarrow> string \<Rightarrow> filesystem \<Rightarrow> filesystem" where
  "log_written p bs f = (case f p of Some (File old) \<Rightarrow> f(p \<mapsto> File (old @ bs)) | _ \<Rightarrow> f)"

definition spawn_shell :: "env \<Rightarrow> string \<Rightarrow> string \<Rightarrow> world \<Rightarrow> (exn + int) \<times> world" where
  "spawn_shell e label shell w =
     (case append_file (logpath e label) [] (fs w) of
        Inl x \<Rightarrow> (Inl x, w)
      | Inr f1 \<Rightarrow>
          (let c = spawn e (command_bash (lockpath e label) shell (initpath e label));
               bs = concat (chunks c)
           in (Inr (waitstatus (ended c)),
               w\<lparr>fs := log_written (logpath e label) bs (child_fs c f1),
                 out := out w @ bs\<rparr>)))"

text \<open>
  \<^verbatim>\<open>
      if status != 200:
          truncate(logpath, basepath / 'log.old', logsize)
          truncate(historypath, basepath / 'history.old', historysize)
          print('=== Disconnected from session "{}" ===\n'.format(label))
      else:
          sys.stderr.write('Cannot connect to session "{}": Session locked. ...')
          exit(1)
  \<close>
\<close>

definition disconnect :: "env \<Rightarrow> string \<Rightarrow> int \<Rightarrow> world \<Rightarrow> outcome \<times> world" where
  \<open>disconnect e label status w =
     (if status \<noteq> 200 then
        (case truncate (logpath e label) (basepath e label @ [''log.old'']) logsize (fs w) of
           (Some x, f1) \<Rightarrow> (Raised x, w\<lparr>fs := f1\<rparr>)
         | (None, f1) \<Rightarrow>
             (case truncate (historypath e label) (basepath e label @ [''history.old''])
                     historysize f1 of
                (Some x, f2) \<Rightarrow> (Raised x, w\<lparr>fs := f2\<rparr>)
              | (None, f2) \<Rightarrow>
                  (Returned,
                   w\<lparr>fs := f2,
                     out := out w @ ''=== Disconnected from session "'' @ label @
                            ''" ===\<newline>\<newline>''\<rparr>)))
      else (Exited 1, w\<lparr>err := err w @ lock_message e label\<rparr>))\<close>

text \<open>
  \<^verbatim>\<open>
  def run(label):
      shell = os.environ['SHELL']
      if shell != '/bin/bash':
          sys.stderr.write('Unknown Shell: {}\n'.format(shell))
          usage()
      ...
  \<close>
  followed by what comes before the shell is spawned (the probe of the lock, the init
  file, the replay of the log), the shell, and the disconnection.
\<close>

definition prepare :: "env \<Rightarrow> string \<Rightarrow> world \<Rightarrow> outcome \<times> world" where
  "prepare e label w =
     and_then (probe_lock e label w) (\<lambda>w1.
     and_then (write_init e label w1) (\<lambda>w2.
       replay e label w2))"

definition run :: "env \<Rightarrow> string \<Rightarrow> world \<Rightarrow> outcome \<times> world" where
  "run e label w =
     (case shell_var e of
        None \<Rightarrow> (Raised KeyError, w)
      | Some shell \<Rightarrow>
          if shell \<noteq> ''/bin/bash''
          then usage (w\<lparr>err := err w @ ''Unknown Shell: '' @ shell @ ''\<newline>''\<rparr>)
          else
            and_then (prepare e label w) (\<lambda>w3.
              case spawn_shell e label shell w3 of
                (Inl x, w4) \<Rightarrow> (Raised x, w4)
              | (Inr status, w4) \<Rightarrow> disconnect e label status w4))"

subsection \<open>create, connect and list\<close>

text \<open>
  \<^verbatim>\<open>
  def create(label):
      basepath = Path.home() / '.pshaw' / label
      if basepath.exists():
          sys.stderr.write('Cannot create session: "{}" already exists.\n'.format(label))
          usage()
      basepath.mkdir(parents=True, exist_ok=True)
      workpath = basepath / 'workdir'
      workpath.write_text(str(Path.cwd()), encoding='utf8')
      logpath = basepath / 'log'
      logpath.touch()
      run(label)
  \<close>
\<close>

definition create :: "env \<Rightarrow> string \<Rightarrow> world \<Rightarrow> outcome \<times> world" where
  \<open>create e label w =
     (if path_exists (fs w) (basepath e label)
      then usage (w\<lparr>err := err w @ ''Cannot create session: "'' @ label @
                                ''" already exists.\<newline>''\<rparr>)
      else
        (case mkdir_parents (basepath e label) (fs w) of
           Inl x \<Rightarrow> (Raised x, w)
         | Inr f1 \<Rightarrow>
             (case write_file (workpath e label) (path_str (cwd e)) f1 of
                Inl x \<Rightarrow> (Raised x, w\<lparr>fs := f1\<rparr>)
              | Inr f2 \<Rightarrow>
                  (case touch (logpath e label) f2 of
                     Inl x \<Rightarrow> (Raised x, w\<lparr>fs := f2\<rparr>)
                   | Inr f3 \<Rightarrow> run e label (w\<lparr>fs := f3\<rparr>)))))\<close>

text \<open>
  \<^verbatim>\<open>
  def connect(label):
      basepath = Path.home() / '.pshaw' / label
      if not basepath.exists():
          sys.stderr.write('Cannot connect to session: "{}" not found\n'.format(label))
          usage()
      run(label)
  \<close>
\<close>

definition connect :: "env \<Rightarrow> string \<Rightarrow> world \<Rightarrow> outcome \<times> world" where
  \<open>connect e label w =
     (if \<not> path_exists (fs w) (basepath e label)
      then usage (w\<lparr>err := err w @ ''Cannot connect to session: "'' @ label @
                                ''" not found\<newline>''\<rparr>)
      else run e label w)\<close>

text \<open>
  \<^verbatim>\<open>
  def list():
      basepath = Path.home() / '.pshaw'
      for path in basepath.iterdir():
          if path.is_dir():
              print(path.name)
  \<close>
\<close>

definition list_sessions :: "env \<Rightarrow> world \<Rightarrow> outcome \<times> world" where
  "list_sessions e w =
     (let root = home e @ [''.pshaw''] in
      if \<not> path_exists (fs w) root then (Raised FileNotFoundError, w)
      else if \<not> is_dir (fs w) root then (Raised NotADirectoryError, w)
      else (Returned,
            w\<lparr>out := out w @
                 concat (map (\<lambda>n. n @ ''\<newline>'')
                   (filter (\<lambda>n. fs w (root @ [n]) = Some Dir) (dir_order e)))\<rparr>))"

subsection \<open>parse_arguments and main\<close>

text \<open>
  \<^verbatim>\<open>re.compile('^[-0-9a-zA-Z]+$').match(s)\<close>: one or more characters of the class, up
  to the end of the string or up to a newline that ends the string.
\<close>

definition safe_char :: "char \<Rightarrow> bool" where
  "safe_char c =
     (c \<in> set (''-0123456789'' @ ''abcdefghijklmnopqrstuvwxyz'' @ ''ABCDEFGHIJKLMNOPQRSTUVWXYZ''))"

definition valid_label :: "string \<Rightarrow> bool" where
  "valid_label s =
     (let body = (if s \<noteq> [] \<and> last s = nl then butlast s else s)
      in body \<noteq> [] \<and> list_all safe_char body)"

text \<open>
  \<^verbatim>\<open>
  def parse_arguments():
      args = {}
      if len(sys.argv) <= 1 or len(sys.argv) > 3:
          usage()
      if sys.argv[1] == 'list':
          if len(sys.argv) != 2:
              usage()
          args['command'] = sys.argv[1]
      else:
          if (len(sys.argv) != 3 or
              (sys.argv[1] != 'create' and
               sys.argv[1] != 'connect')):
              usage()
          valid_label = re.compile('^[-0-9a-zA-Z]+$')
          if valid_label.match(sys.argv[2]) is None:
              sys.stderr.write('Invalid label {}: Must be [-a-zA-Z0-9]+\n'.format(sys.argv[2]))
          args['command'] = sys.argv[1]
          args['label'] = sys.argv[2]
      return args
  \<close>
  The result is the dictionary, or how the program ended instead.
\<close>

definition parse_arguments ::
  "string list \<Rightarrow> world \<Rightarrow> (outcome + (string \<rightharpoonup> string)) \<times> world" where
  "parse_arguments argv w =
     (if length argv \<le> 1 \<or> length argv > 3 then (Inl (fst (usage w)), snd (usage w))
      else if argv ! 1 = ''list'' then
        (if length argv \<noteq> 2 then (Inl (fst (usage w)), snd (usage w))
         else (Inr [''command'' \<mapsto> argv ! 1], w))
      else if length argv \<noteq> 3 \<or> (argv ! 1 \<noteq> ''create'' \<and> argv ! 1 \<noteq> ''connect'')
        then (Inl (fst (usage w)), snd (usage w))
      else
        (Inr [''command'' \<mapsto> argv ! 1, ''label'' \<mapsto> argv ! 2],
         if \<not> valid_label (argv ! 2)
         then w\<lparr>err := err w @ ''Invalid label '' @ argv ! 2 @
                               '': Must be [-a-zA-Z0-9]+\<newline>''\<rparr>
         else w))"

text \<open>
  \<^verbatim>\<open>
  def main():
      args = parse_arguments()
      if args['command'] == 'create':
          create(args['label'])
      elif args['command'] == 'connect':
          connect(args['label'])
      elif args['command'] == 'list':
          list()
  \<close>
\<close>

definition lookup :: "(string \<rightharpoonup> string) \<Rightarrow> string \<Rightarrow> exn + string" where
  "lookup d k = (case d k of None \<Rightarrow> Inl KeyError | Some v \<Rightarrow> Inr v)"

definition main :: "env \<Rightarrow> string list \<Rightarrow> world \<Rightarrow> outcome \<times> world" where
  "main e argv w =
     (case parse_arguments argv w of
        (Inl x, w1) \<Rightarrow> (x, w1)
      | (Inr args, w1) \<Rightarrow>
          (case lookup args ''command'' of
             Inl x \<Rightarrow> (Raised x, w1)
           | Inr c \<Rightarrow>
               if c = ''create'' then
                 (case lookup args ''label'' of
                    Inl x \<Rightarrow> (Raised x, w1)
                  | Inr label \<Rightarrow> create e label w1)
               else if c = ''connect'' then
                 (case lookup args ''label'' of
                    Inl x \<Rightarrow> (Raised x, w1)
                  | Inr label \<Rightarrow> connect e label w1)
               else if c = ''list'' then list_sessions e w1
               else (Returned, w1)))"

section \<open>Concrete sessions\<close>

text \<open>Whether a word occurs in a text.\<close>

fun has_infix :: "string \<Rightarrow> string \<Rightarrow> bool" where
  "has_infix w [] = (w = [])"
| "has_infix w (c # cs) = (take (length w) (c # cs) = w \<or> has_infix w cs)"

text \<open>
  A shell that prints two chunks, leaves a history file for the session \<open>a_b\<close> and exits
  with code 0; and flock finding the lock taken: no output, exit code 200.
\<close>

definition shell_run :: child_run where
  "shell_run =
     \<lparr>chunks = [''$ ls\<newline>'', ''notes\<newline>''],
      ended = ExitCode 0,
      child_fs = (\<lambda>f. f([''home'', ''u'', ''.pshaw'', ''a_b'', ''history''] \<mapsto> File ''ls\<newline>''))\<rparr>"

definition conflict_run :: child_run where
  "conflict_run = \<lparr>chunks = [], ended = ExitCode 200, child_fs = (\<lambda>f. f)\<rparr>"

text \<open>
  An operator whose shell is bash; the same with zsh; the same while another process
  holds the lock at the probe; the same when the lock is free at the probe and taken
  when the command is spawned.
\<close>

definition env_bash :: env where
  "env_bash =
     \<lparr>home = [''home'', ''u''], cwd = [''tmp''], shell_var = Some ''/bin/bash'',
      lock_held = False, spawn = (\<lambda>argv. shell_run), dir_order = []\<rparr>"

definition env_zsh :: env where
  "env_zsh = env_bash\<lparr>shell_var := Some ''/bin/zsh''\<rparr>"

definition env_held :: env where
  "env_held = env_bash\<lparr>lock_held := True\<rparr>"

definition env_race :: env where
  "env_race = env_bash\<lparr>spawn := (\<lambda>argv. conflict_run)\<rparr>"

text \<open>
  File systems: only the home directory; the session \<open>a\<close> with a log and no history yet;
  the same session with a history; the same with the lock file of a connection.
\<close>

definition home_only :: filesystem where
  "home_only = [[''home''] \<mapsto> Dir, [''home'', ''u''] \<mapsto> Dir]"

definition fresh_session :: filesystem where
  "fresh_session =
     home_only
      ([''home'', ''u'', ''.pshaw''] \<mapsto> Dir,
       [''home'', ''u'', ''.pshaw'', ''a''] \<mapsto> Dir,
       [''home'', ''u'', ''.pshaw'', ''a'', ''workdir''] \<mapsto> File ''/tmp'',
       [''home'', ''u'', ''.pshaw'', ''a'', ''log''] \<mapsto> File ''hi\<newline>'')"

definition used_session :: filesystem where
  "used_session = fresh_session([''home'', ''u'', ''.pshaw'', ''a'', ''history''] \<mapsto> File ''ls\<newline>'')"

definition locked_session :: filesystem where
  "locked_session = used_session([''home'', ''u'', ''.pshaw'', ''a'', ''lock''] \<mapsto> File [])"

definition world_of :: "filesystem \<Rightarrow> world" where
  "world_of f = \<lparr>fs = f, out = [], err = []\<rparr>"

section \<open>Lines and tail\<close>

lemma split_lines_Nil_iff: "split_lines bs = [] \<longleftrightarrow> bs = []"
  by (cases bs) (simp_all split: list.splits)

lemma concat_split_lines: "concat (split_lines bs) = bs"
  by (induction bs) (auto split: list.splits)

lemma drop_lines_split: "concat (drop j (split_lines bs)) = drop_lines j bs"
proof (induction bs arbitrary: j)
  case Nil
  show ?case by (cases j) simp_all
next
  case (Cons c cs)
  show ?case
  proof (cases j)
    case 0
    then show ?thesis using concat_split_lines [of "c # cs"] by simp
  next
    case (Suc i)
    show ?thesis
    proof (cases "c = nl")
      case True
      then show ?thesis using Suc Cons.IH [of i] by simp
    next
      case False
      show ?thesis
      proof (cases "split_lines cs")
        case Nil
        then have "cs = []" by (simp add: split_lines_Nil_iff)
        then show ?thesis using False Suc by simp
      next
        case (Cons l ls)
        then show ?thesis using False Suc Cons.IH [of "Suc i"] by simp
      qed
    qed
  qed
qed

lemma cnt_Nil: "cnt [] = 0"
  by (simp add: cnt_def)

lemma cnt_Cons: "cnt (c # cs) = (if c = nl then Suc (cnt cs) else cnt cs)"
  by (simp add: cnt_def)

lemma cnt_rev: "cnt (rev cs) = cnt cs"
  by (simp add: cnt_def rev_filter [symmetric])

lemma take_until_nl_append:
  "take_until_nl k (r @ s) =
     (if cnt r \<le> k then r @ take_until_nl (k - cnt r) s else take_until_nl k r)"
  by (induction r arbitrary: k) (auto simp: cnt_Nil cnt_Cons split: nat.splits)

lemma take_until_nl_rev:
  "rev (take_until_nl k (rev bs)) = (if cnt bs \<le> k then bs else drop_lines (cnt bs - k) bs)"
proof (induction bs)
  case Nil
  show ?case by (simp add: cnt_Nil)
next
  case (Cons c cs)
  show ?case
  proof (cases "cnt cs \<le> k")
    case True
    then have step: "take_until_nl k (rev (c # cs)) = rev cs @ take_until_nl (k - cnt cs) [c]"
      by (simp add: take_until_nl_append cnt_rev)
    show ?thesis
    proof (cases "c = nl \<and> k = cnt cs")
      case True
      then show ?thesis using step by (simp add: cnt_Cons)
    next
      case False
      then have "take_until_nl (k - cnt cs) [c] = [c]"
        using True by (cases "k - cnt cs") auto
      then show ?thesis using step True False by (auto simp: cnt_Cons)
    qed
  next
    case False
    then have "rev (take_until_nl k (rev (c # cs))) = drop_lines (cnt cs - k) cs"
      using Cons.IH by (simp add: take_until_nl_append cnt_rev)
    moreover obtain i where "cnt cs - k = Suc i"
      using False by (cases "cnt cs - k") simp_all
    ultimately show ?thesis using False by (auto simp: cnt_Cons Suc_diff_le)
  qed
qed

lemma length_split_lines:
  "length (split_lines bs) = cnt bs + (if bs \<noteq> [] \<and> last bs \<noteq> nl then 1 else 0)"
proof (induction bs)
  case Nil
  show ?case by (simp add: cnt_Nil)
next
  case (Cons c cs)
  show ?case
  proof (cases "cs = []")
    case True
    then show ?thesis by (simp add: cnt_Nil cnt_Cons)
  next
    case False
    then obtain l ls where "split_lines cs = l # ls"
      using split_lines_Nil_iff [of cs] by (cases "split_lines cs") simp_all
    then show ?thesis using False Cons.IH by (simp add: cnt_Cons)
  qed
qed

lemma tail_n_lines:
  assumes "0 \<le> m" and "nat m < tail_limit"
  shows "tail_n m bs = concat (drop (length (split_lines bs) - nat m) (split_lines bs))"
proof (cases "nat m = 0")
  case True
  then show ?thesis using assms by (simp add: tail_n_def)
next
  case False
  define u :: nat where "u = (if bs \<noteq> [] \<and> last bs \<noteq> nl then 1 else 0)"
  have k: "nat \<bar>m\<bar> = nat m" using assms by simp
  have h: "(rev bs \<noteq> [] \<and> hd (rev bs) \<noteq> nl) = (bs \<noteq> [] \<and> last bs \<noteq> nl)"
    by (simp add: hd_rev)
  have t: "tail_n m bs = rev (take_until_nl (nat m - u) (rev bs))"
    using False k h assms(2) unfolding tail_n_def u_def Let_def by simp
  have n: "length (split_lines bs) = cnt bs + u"
    by (simp add: length_split_lines u_def)
  have u1: "u \<le> nat m" using False unfolding u_def by (cases "nat m") auto
  show ?thesis
  proof (cases "cnt bs \<le> nat m - u")
    case True
    then have "length (split_lines bs) - nat m = 0" using n u1 by simp
    then show ?thesis using True t by (simp add: take_until_nl_rev concat_split_lines)
  next
    case False
    then have "cnt bs - (nat m - u) = length (split_lines bs) - nat m" using n u1 by simp
    then show ?thesis using False t by (simp add: take_until_nl_rev drop_lines_split)
  qed
qed

lemma split_lines_drop_lines: "split_lines (drop_lines j bs) = drop j (split_lines bs)"
proof (induction bs arbitrary: j)
  case Nil
  show ?case by (cases j) simp_all
next
  case (Cons c cs)
  show ?case
  proof (cases j)
    case 0
    then show ?thesis by simp
  next
    case (Suc i)
    show ?thesis
    proof (cases "c = nl")
      case True
      then show ?thesis using Suc Cons.IH [of i] by simp
    next
      case False
      show ?thesis
      proof (cases "split_lines cs")
        case Nil
        then have "cs = []" by (simp add: split_lines_Nil_iff)
        then show ?thesis using False Suc by simp
      next
        case (Cons l ls)
        then show ?thesis using False Suc Cons.IH [of "Suc i"] by simp
      qed
    qed
  qed
qed

lemma split_lines_tail_n:
  assumes "0 \<le> m" and "nat m < tail_limit"
  shows "split_lines (tail_n m bs) = drop (length (split_lines bs) - nat m) (split_lines bs)"
  using tail_n_lines [OF assms, of bs]
  by (simp add: drop_lines_split split_lines_drop_lines)

lemma tail_n_all:
  assumes "0 \<le> m" and "nat m < tail_limit" and "length (split_lines bs) \<le> nat m"
  shows "tail_n m bs = bs"
  using tail_n_lines [OF assms(1,2), of bs] assms(3) by (simp add: concat_split_lines)

section \<open>Rotation\<close>

text \<open>
  What \<open>truncate\<close> does to a regular file \<open>p\<close> whose backup path is another path that is
  not a directory, both in existing directories.
\<close>

lemma truncate_file:
  assumes "f p = Some (File bs)" and "p \<noteq> []" and "p \<noteq> oldpath"
    and "\<not> is_dir f oldpath" and "is_dir f (parent p)" and "is_dir f (parent oldpath)"
  shows "truncate p oldpath m f = (None, (f(oldpath \<mapsto> File bs))(p \<mapsto> File (tail_n m bs)))"
proof -
  have po: "parent p \<noteq> oldpath" using assms(4,5) by auto
  have "length (parent p) < length p" using assms(2) by (simp add: parent_def)
  then have pp: "parent p \<noteq> p" by auto
  have op: "parent oldpath \<noteq> p" using assms(1,2,6) by (auto simp: is_dir_def)
  have mv: "move p oldpath f = Inr ((f(p := None))(oldpath \<mapsto> File bs))"
    using assms by (auto simp: move_def check_parent_def is_dir_def path_exists_def)
  have wr: "write_file p [] ((f(p := None))(oldpath \<mapsto> File bs))
              = Inr ((f(oldpath \<mapsto> File bs))(p \<mapsto> File []))"
    using assms po pp
    by (auto simp: write_file_def check_parent_def is_dir_def path_exists_def fun_upd_twist)
  show ?thesis
    using assms(3) by (simp add: truncate_def mv wr tail_cmd_def)
qed

lemma parent_neq: "p \<noteq> [] \<Longrightarrow> parent p \<noteq> p"
proof -
  assume "p \<noteq> []"
  then have "length (parent p) < length p" by (simp add: parent_def)
  then show ?thesis by auto
qed

text \<open>
  C1. Let \<open>p\<close> be a regular file with \<open>N\<close> lines (at most \<open>2 ^ 64\<close>, as in every file that
  can exist), and let the backup path be another
  path, not a directory, both in existing directories. For every maximum \<open>M < N\<close>,
  \<open>truncate\<close> returns normally; afterwards \<open>p\<close> holds exactly the last \<open>M\<close> lines of the old
  content, in their order, and the backup path holds the old content.
\<close>

theorem rotate_keeps_last_lines:
  assumes "f p = Some (File bs)" and "p \<noteq> []" and "p \<noteq> oldpath"
    and "\<not> is_dir f oldpath" and "is_dir f (parent p)" and "is_dir f (parent oldpath)"
    and "length (split_lines bs) = N" and "N \<le> 2 ^ 64" and "M < N"
  shows "\<exists>new f'. truncate p oldpath (int M) f = (None, f')
           \<and> f' p = Some (File new)
           \<and> split_lines new = drop (N - M) (split_lines bs)
           \<and> length (split_lines new) = M
           \<and> f' oldpath = Some (File bs)"
proof -
  have t: "truncate p oldpath (int M) f
             = (None, (f(oldpath \<mapsto> File bs))(p \<mapsto> File (tail_n (int M) bs)))"
    using assms(1-6) by (rule truncate_file)
  have "nat (int M) < tail_limit"
    using assms(8,9) by (simp add: tail_limit_def)
  then have s: "split_lines (tail_n (int M) bs) = drop (N - M) (split_lines bs)"
    using split_lines_tail_n [of "int M" bs] assms(7) by simp
  have l: "length (split_lines (tail_n (int M) bs)) = M"
    using s assms(7,9) by simp
  show ?thesis using t s l assms(3) by simp
qed

theorem rotate_keeps_last_lines_witness:
  "\<exists>new f'. truncate [''s'', ''log''] [''s'', ''log.old''] (int 2)
                [[''s''] \<mapsto> Dir, [''s'', ''log''] \<mapsto> File ''a\<newline>b\<newline>c\<newline>''] = (None, f')
           \<and> f' [''s'', ''log''] = Some (File new)
           \<and> split_lines new = drop (3 - 2) (split_lines ''a\<newline>b\<newline>c\<newline>'')
           \<and> length (split_lines new) = 2
           \<and> f' [''s'', ''log.old''] = Some (File ''a\<newline>b\<newline>c\<newline>'')"
  by (rule rotate_keeps_last_lines) (simp_all add: is_dir_def parent_def nl_def)

text \<open>
  C10 (as amended). Let \<open>p\<close> be a regular file with \<open>N\<close> lines, the backup path as before.
  For every maximum \<open>M\<close> with \<open>N \<le> M\<close> and \<open>M < 2 ^ 64\<close>, \<open>truncate\<close> leaves the content of \<open>p\<close>
  as it was, and a second \<open>truncate\<close> right after the first leaves in \<open>p\<close> what the first
  left.
\<close>

theorem rotate_small_file_unchanged:
  assumes "f p = Some (File bs)" and "p \<noteq> []" and "p \<noteq> oldpath"
    and "\<not> is_dir f oldpath" and "is_dir f (parent p)" and "is_dir f (parent oldpath)"
    and "length (split_lines bs) = N" and "N \<le> M" and "M < 2 ^ 64"
  shows "\<exists>f1 f2. truncate p oldpath (int M) f = (None, f1)
           \<and> f1 p = Some (File bs)
           \<and> truncate p oldpath (int M) f1 = (None, f2)
           \<and> f2 p = f1 p"
proof -
  define f1 where "f1 = (f(oldpath \<mapsto> File bs))(p \<mapsto> File bs)"
  have "nat (int M) < tail_limit"
    using assms(9) by (simp add: tail_limit_def)
  then have tl: "tail_n (int M) bs = bs"
    using assms(7,8) by (simp add: tail_n_all)
  have t1: "truncate p oldpath (int M) f = (None, f1)"
    using truncate_file [OF assms(1-6), of "int M"] by (simp add: tl f1_def)
  have po: "parent p \<noteq> oldpath" using assms(4,5) by auto
  have op: "parent oldpath \<noteq> p" using assms(1,2,6) by (auto simp: is_dir_def)
  have pp: "parent p \<noteq> p" using assms(2) by (rule parent_neq)
  have "oldpath \<noteq> []" using assms(4) by (auto simp: is_dir_def)
  then have oo: "parent oldpath \<noteq> oldpath" by (rule parent_neq)
  have h1: "f1 p = Some (File bs)" by (simp add: f1_def)
  have h4: "\<not> is_dir f1 oldpath" using assms(3,4) by (simp add: f1_def is_dir_def)
  have h5: "is_dir f1 (parent p)" using assms(5) po pp by (auto simp: f1_def is_dir_def)
  have h6: "is_dir f1 (parent oldpath)" using assms(6) op oo by (auto simp: f1_def is_dir_def)
  have t2: "truncate p oldpath (int M) f1 = (None, f1)"
    using truncate_file [OF h1 assms(2,3) h4 h5 h6, of "int M"]
    by (simp add: tl f1_def)
  show ?thesis using t1 t2 h1 by simp
qed

theorem rotate_small_file_unchanged_witness:
  "\<exists>f1 f2. truncate [''s'', ''log''] [''s'', ''log.old''] (int 5)
                [[''s''] \<mapsto> Dir, [''s'', ''log''] \<mapsto> File ''a\<newline>b''] = (None, f1)
           \<and> f1 [''s'', ''log''] = Some (File ''a\<newline>b'')
           \<and> truncate [''s'', ''log''] [''s'', ''log.old''] (int 5) f1 = (None, f2)
           \<and> f2 [''s'', ''log''] = f1 [''s'', ''log'']"
  by (rule rotate_small_file_unchanged [where N = 2]) (simp_all add: is_dir_def parent_def nl_def)

text \<open>
  C10 as stated fails: a file of two lines and the maximum \<open>2 ^ 64\<close>. tail refuses the
  count and prints nothing, and \<open>truncate\<close> leaves the file empty.
\<close>

theorem rotate_count_too_large:
  "length (split_lines ''a\<newline>b'') \<le> 2 ^ 64
   \<and> fst (truncate [''s'', ''log''] [''s'', ''log.old''] (2 ^ 64)
            [[''s''] \<mapsto> Dir, [''s'', ''log''] \<mapsto> File ''a\<newline>b'']) = None
   \<and> snd (truncate [''s'', ''log''] [''s'', ''log.old''] (2 ^ 64)
            [[''s''] \<mapsto> Dir, [''s'', ''log''] \<mapsto> File ''a\<newline>b'']) [''s'', ''log'']
        = Some (File [])"
  by (simp add: truncate_def move_def write_file_def check_parent_def is_dir_def
        path_exists_def parent_def tail_cmd_def tail_n_def tail_limit_def nl_def)

section \<open>Evaluation\<close>

lemmas session_paths =
  basepath_def label_parts_def initpath_def lockpath_def workpath_def logpath_def historypath_def

lemmas run_steps =
  run_def prepare_def probe_lock_def flock_probe_def write_init_def replay_def
  spawn_shell_def disconnect_def and_then_def usage_def connect_def create_def
  init_script_def init_data_def init_bash_def command_bash_def Let_def

lemmas fs_steps =
  read_file_def write_file_def append_file_def touch_def check_parent_def
  is_dir_def path_exists_def parent_def move_def truncate_def tail_cmd_def log_written_def
  mkdir_parents_def

lemmas examples =
  env_bash_def env_zsh_def env_held_def env_race_def shell_run_def conflict_run_def
  home_only_def fresh_session_def used_session_def locked_session_def world_of_def

section \<open>The init script\<close>

text \<open>A valid label has no slash and is not \<^verbatim>\<open>.\<close>, so it is one component of the path.\<close>

lemma split_slash_plain: "CHR ''/'' \<notin> set s \<Longrightarrow> split_slash s = [s]"
  by (induction s) auto

lemma safe_char_plain: "safe_char c \<Longrightarrow> c \<noteq> CHR ''/'' \<and> c \<noteq> CHR ''.''"
  by (auto simp: safe_char_def)

lemma valid_label_plain:
  assumes "valid_label label"
  shows "label \<noteq> []" and "CHR ''/'' \<notin> set label" and "label \<noteq> ''.''"
proof -
  show ne: "label \<noteq> []" using assms by (auto simp: valid_label_def Let_def)
  have sl: "c \<noteq> CHR ''/''" if "c \<in> set label" for c
  proof (cases "last label = nl")
    case True
    have "label = butlast label @ [last label]" using ne by simp
    then have "c \<in> set (butlast label) \<or> c = last label"
      using that by (metis Un_iff empty_iff empty_set set_ConsD set_append)
    moreover have "list_all safe_char (butlast label)"
      using assms True ne by (simp add: valid_label_def Let_def)
    ultimately show ?thesis
      using True safe_char_plain by (auto simp: list_all_iff nl_def)
  next
    case False
    then have "list_all safe_char label" using assms by (simp add: valid_label_def Let_def)
    then show ?thesis using that safe_char_plain by (auto simp: list_all_iff)
  qed
  then show "CHR ''/'' \<notin> set label" by blast
  show "label \<noteq> ''.''"
  proof
    assume "label = ''.''"
    then show False using assms by (simp add: valid_label_def Let_def nl_def safe_char_def)
  qed
qed

lemma valid_label_basepath:
  assumes "valid_label label"
  shows "basepath e label = home e @ [''.pshaw'', label]"
proof -
  have "split_slash label = [label]"
    using valid_label_plain(2) [OF assms] by (rule split_slash_plain)
  moreover have "hd label \<noteq> CHR ''/''"
    using valid_label_plain(1,2) [OF assms] by (cases label) auto
  ultimately show ?thesis
    using valid_label_plain(1,3) [OF assms] by (simp add: basepath_def label_parts_def)
qed

text \<open>
  C4 (as amended). For every valid label and home directory the rendered script is
  exactly this text: two empty lines; \<^verbatim>\<open>PSHAW_LABEL=\<close> and the label; \<^verbatim>\<open>source\<close> and the
  path of \<^verbatim>\<open>.bashrc\<close> in the home directory; an empty line; \<^verbatim>\<open>shopt -s histappend\<close>;
  \<^verbatim>\<open>HISTFILE=\<close> and the history path of the session; \<^verbatim>\<open>cd\<close> and, between backquotes,
  \<^verbatim>\<open>cat\<close> and the workdir path; \<^verbatim>\<open>PROMPT_COMMAND=\<close> and, between double quotes,
  \<^verbatim>\<open>history -a; pwd > \<close> the workdir path \<^verbatim>\<open>; $PROMPT_COMMAND\<close>; an empty line; the
  \<^verbatim>\<open>echo\<close> of the banner with the label; an empty line.
\<close>

theorem init_script_text:
  assumes "valid_label label"
  shows \<open>init_script e label =
     Inr (''\<newline>\<newline>'' @
          ''PSHAW_LABEL='' @ label @ ''\<newline>'' @
          ''source '' @ path_str (home e @ [''.bashrc'']) @ ''\<newline>'' @
          ''\<newline>'' @
          ''shopt -s histappend\<newline>'' @
          ''HISTFILE='' @ path_str (home e @ [''.pshaw'', label, ''history'']) @ ''\<newline>'' @
          ''cd `cat '' @ path_str (home e @ [''.pshaw'', label, ''workdir'']) @ ''`\<newline>'' @
          ''PROMPT_COMMAND="history -a; pwd > '' @
            path_str (home e @ [''.pshaw'', label, ''workdir'']) @
            ''; $PROMPT_COMMAND"\<newline>'' @
          ''\<newline>'' @
          ''echo === Connected to session '' @ label @ '' ===\<newline>'' @
          ''\<newline>'')\<close>
  using valid_label_basepath [OF assms, of e]
  by (simp add: init_script_def init_data_def init_bash_def historypath_def workpath_def)

theorem init_script_text_witness:
  \<open>valid_label ''a'' \<and>
   init_script env_bash ''a'' =
     Inr (''\<newline>\<newline>'' @
          ''PSHAW_LABEL='' @ ''a'' @ ''\<newline>'' @
          ''source '' @ path_str (home env_bash @ [''.bashrc'']) @ ''\<newline>'' @
          ''\<newline>'' @
          ''shopt -s histappend\<newline>'' @
          ''HISTFILE='' @ path_str (home env_bash @ [''.pshaw'', ''a'', ''history'']) @ ''\<newline>'' @
          ''cd `cat '' @ path_str (home env_bash @ [''.pshaw'', ''a'', ''workdir'']) @ ''`\<newline>'' @
          ''PROMPT_COMMAND="history -a; pwd > '' @
            path_str (home env_bash @ [''.pshaw'', ''a'', ''workdir'']) @
            ''; $PROMPT_COMMAND"\<newline>'' @
          ''\<newline>'' @
          ''echo === Connected to session '' @ ''a'' @ '' ===\<newline>'' @
          ''\<newline>'')\<close>
proof -
  have v: "valid_label ''a''"
    by (simp add: valid_label_def safe_char_def nl_def)
  show ?thesis using v init_script_text [OF v, of env_bash] by simp
qed

text \<open>
  C4 as stated fails: the script for the label \<open>a\<close> has no export command; the variable
  is assigned, not exported.
\<close>

theorem init_script_no_export:
  \<open>init_script env_bash ''a'' =
     Inr (''\<newline>\<newline>'' @
          ''PSHAW_LABEL=a\<newline>'' @
          ''source /home/u/.bashrc\<newline>'' @
          ''\<newline>'' @
          ''shopt -s histappend\<newline>'' @
          ''HISTFILE=/home/u/.pshaw/a/history\<newline>'' @
          ''cd `cat /home/u/.pshaw/a/workdir`\<newline>'' @
          ''PROMPT_COMMAND="history -a; pwd > /home/u/.pshaw/a/workdir; $PROMPT_COMMAND"\<newline>'' @
          ''\<newline>'' @
          ''echo === Connected to session a ===\<newline>'' @
          ''\<newline>'')
   \<and> \<not> has_infix ''export'' (projr (init_script env_bash ''a''))\<close>
  by (simp add: init_script_def init_data_def init_bash_def session_paths path_str_def examples)

section \<open>Arguments\<close>

text \<open>
  C2. The label \<open>a_b\<close> is not valid. \<open>parse_arguments\<close> writes the complaint to standard
  error and goes on: \<open>pshaw create a_b\<close> creates the session directory of \<open>a_b\<close>, runs the
  shell and returns with exit status 0; the usage text is not printed.
\<close>

theorem invalid_label_creates_session:
  "\<not> valid_label ''a_b''
   \<and> fst (main env_bash [''pshaw'', ''create'', ''a_b''] (world_of home_only)) = Returned
   \<and> fs (snd (main env_bash [''pshaw'', ''create'', ''a_b''] (world_of home_only)))
        (basepath env_bash ''a_b'') = Some Dir
   \<and> err (snd (main env_bash [''pshaw'', ''create'', ''a_b''] (world_of home_only)))
        = ''Invalid label a_b: Must be [-a-zA-Z0-9]+\<newline>''"
  by (simp add: main_def parse_arguments_def lookup_def valid_label_def safe_char_def nl_def
        run_steps fs_steps session_paths examples)

section \<open>Creating a session\<close>

text \<open>
  C8. \<open>create\<close> on a label whose session directory exists writes the complaint and the
  usage text to standard error and exits with status 1; the file system and standard
  output are as before.
\<close>

theorem create_existing_fails:
  assumes "path_exists (fs w) (basepath e label)"
  shows \<open>create e label w =
           (Exited 1,
            w\<lparr>err := err w @ ''Cannot create session: "'' @ label @ ''" already exists.\<newline>'' @
                     usage_message\<rparr>)\<close>
  using assms by (simp add: create_def usage_def)

theorem create_existing_fails_witness:
  \<open>create env_bash ''a'' (world_of used_session) =
     (Exited 1,
      (world_of used_session)\<lparr>err := err (world_of used_session) @ ''Cannot create session: "'' @ ''a'' @
                     ''" already exists.\<newline>'' @ usage_message\<rparr>)\<close>
  by (rule create_existing_fails) (simp add: path_exists_def session_paths examples)

section \<open>An unsupported shell\<close>

text \<open>
  C3 (as amended). When \<^verbatim>\<open>SHELL\<close> is set and is not \<^verbatim>\<open>/bin/bash\<close>, \<open>run\<close> writes
  \<^verbatim>\<open>Unknown Shell\<close> with the shell and the usage text to standard error and exits with
  status 1, and changes nothing else; \<open>connect\<close> on an existing session is this \<open>run\<close>.
\<close>

theorem unsupported_shell_exits:
  assumes "shell_var e = Some shell" and "shell \<noteq> ''/bin/bash''"
    and "path_exists (fs w) (basepath e label)"
  shows "run e label w =
           (Exited 1, w\<lparr>err := err w @ ''Unknown Shell: '' @ shell @ ''\<newline>'' @ usage_message\<rparr>)
         \<and> connect e label w = run e label w"
  using assms by (simp add: run_def connect_def usage_def)

theorem unsupported_shell_exits_witness:
  "run env_zsh ''a'' (world_of used_session) =
     (Exited 1, (world_of used_session)\<lparr>err := err (world_of used_session) @ ''Unknown Shell: '' @
         ''/bin/zsh'' @ ''\<newline>'' @ usage_message\<rparr>)
   \<and> connect env_zsh ''a'' (world_of used_session) = run env_zsh ''a'' (world_of used_session)"
  by (rule unsupported_shell_exits) (simp_all add: path_exists_def session_paths examples)

text \<open>
  C3 as stated fails for \<open>create\<close>: the shell is checked in \<open>run\<close>, after \<open>create\<close> has
  made the session directory, the workdir file and the log file, and they stay.
\<close>

theorem create_unsupported_shell_leaves_files:
  "shell_var env_zsh = Some ''/bin/zsh''
   \<and> fs (world_of home_only) (basepath env_zsh ''a'') = None
   \<and> fst (create env_zsh ''a'' (world_of home_only)) = Exited 1
   \<and> fs (snd (create env_zsh ''a'' (world_of home_only))) (basepath env_zsh ''a'') = Some Dir
   \<and> fs (snd (create env_zsh ''a'' (world_of home_only))) (workpath env_zsh ''a'') = Some (File ''/tmp'')
   \<and> fs (snd (create env_zsh ''a'' (world_of home_only))) (logpath env_zsh ''a'') = Some (File [])"
  by (simp add: run_steps fs_steps session_paths examples path_str_def)

section \<open>Before the shell is spawned\<close>

text \<open>
  C5 (as amended). When a connection reaches the point where the shell is spawned, what
  it has written to standard output is the two bytes \<open>ESC c\<close> that reset the terminal,
  followed by the bytes the log file held when the connection began.
\<close>

theorem replay_after_clear:
  assumes "prepare e label w = (Returned, w')"
  shows "\<exists>bs. fs w (logpath e label) = Some (File bs) \<and> out w' = out w @ clear_terminal @ bs"
proof -
  obtain w1 where p: "probe_lock e label w = (Returned, w1)"
    using assms by (cases "probe_lock e label w") (auto simp: prepare_def and_then_def split: outcome.splits)
  obtain w2 where i: "write_init e label w1 = (Returned, w2)"
    using assms p by (cases "write_init e label w1") (auto simp: prepare_def and_then_def split: outcome.splits)
  have r: "replay e label w2 = (Returned, w')"
    using assms p i by (simp add: prepare_def and_then_def)
  have p1: "fs w1 (logpath e label) = fs w (logpath e label) \<and> out w1 = out w"
    using p by (auto simp: probe_lock_def flock_probe_def logpath_def lockpath_def split: if_splits)
  have i1: "fs w2 (logpath e label) = fs w1 (logpath e label) \<and> out w2 = out w1"
    using i by (auto simp: write_init_def write_file_def logpath_def initpath_def split: sum.splits option.splits if_splits)
  obtain bs where b: "read_file (logpath e label) (fs w2) = Inr bs" and o: "out w' = out w2 @ clear_terminal @ bs"
    using r by (auto simp: replay_def split: sum.splits)
  have "fs w2 (logpath e label) = Some (File bs)"
    using b by (auto simp: read_file_def split: option.splits if_splits node.splits)
  then show ?thesis using p1 i1 o by simp
qed

theorem replay_after_clear_witness:
  "\<exists>bs. fs (world_of used_session) (logpath env_bash ''a'') = Some (File bs)
      \<and> out (snd (prepare env_bash ''a'' (world_of used_session)))
          = out (world_of used_session) @ clear_terminal @ bs"
proof (rule replay_after_clear)
  have "fst (prepare env_bash ''a'' (world_of used_session)) = Returned"
    by (simp add: run_steps fs_steps session_paths examples)
  then show "prepare env_bash ''a'' (world_of used_session)
               = (Returned, snd (prepare env_bash ''a'' (world_of used_session)))"
    by (metis prod.collapse)
qed

text \<open>
  C5 as stated fails: with the log \<^verbatim>\<open>hi\<close> the bytes written before the spawn are
  \<open>ESC c\<close> and then \<^verbatim>\<open>hi\<close>, not the log alone.
\<close>

theorem replay_starts_with_clear:
  "fs (world_of used_session) (logpath env_bash ''a'') = Some (File ''hi\<newline>'')
   \<and> fst (prepare env_bash ''a'' (world_of used_session)) = Returned
   \<and> out (snd (prepare env_bash ''a'' (world_of used_session))) = [CHR 0x1B, CHR ''c''] @ ''hi\<newline>''
   \<and> out (snd (prepare env_bash ''a'' (world_of used_session))) \<noteq> out (world_of used_session) @ ''hi\<newline>''"
  by (simp add: run_steps fs_steps session_paths examples clear_terminal_def)

section \<open>The lock\<close>

text \<open>
  When the probe finds the lock held, \<open>run\<close> writes the message that names the lock file
  to remove to standard error and exits with status 1; the file system and standard
  output are as before. \<open>connect\<close> on an existing session is this \<open>run\<close>.
\<close>

lemma probe_conflict_exits:
  assumes "shell_var e = Some ''/bin/bash''" and "lock_held e"
    and "path_exists (fs w) (basepath e label)"
  shows "run e label w = (Exited 1, w\<lparr>err := err w @ lock_message e label\<rparr>)
         \<and> connect e label w = run e label w"
  using assms
  by (simp add: run_def connect_def prepare_def probe_lock_def flock_probe_def and_then_def)

lemma probe_conflict_example:
  \<open>connect env_held ''a'' (world_of locked_session) =
     (Exited 1,
      (world_of locked_session)\<lparr>err :=
         ''Cannot connect to session "a": Session locked. If you are sure you are not '' @
         ''already using this session, you can rm /home/u/.pshaw/a/lock to unlock it.\<newline>''\<rparr>)\<close>
proof -
  have "path_exists (fs (world_of locked_session)) (basepath env_held ''a'')"
    by (simp add: path_exists_def session_paths examples)
  then have "connect env_held ''a'' (world_of locked_session) =
      (Exited 1, (world_of locked_session)\<lparr>err := err (world_of locked_session) @ lock_message env_held ''a''\<rparr>)"
    using probe_conflict_exits [of env_held "world_of locked_session" "''a''"]
    by (simp add: examples)
  then show ?thesis
    by (simp add: lock_message_def path_str_def session_paths examples)
qed

text \<open>
  C7. The lock is free at the probe and taken when the command is spawned, so flock ends
  with exit code 200. \<open>connect\<close> reports nothing: standard error stays empty and the
  program returns, exit status 0, where a conflict report and exit status 1 are due,
  and the session has changed: \<^verbatim>\<open>init.bash\<close>, \<^verbatim>\<open>log.old\<close> and \<^verbatim>\<open>history.old\<close> have appeared.
\<close>

theorem lost_race_goes_unreported:
  "\<not> lock_held env_race
   \<and> ended (spawn env_race (command_bash (lockpath env_race ''a'') ''/bin/bash'' (initpath env_race ''a'')))
       = ExitCode 200
   \<and> fst (connect env_race ''a'' (world_of used_session)) = Returned
   \<and> err (snd (connect env_race ''a'' (world_of used_session))) = []
   \<and> fs (world_of used_session) (initpath env_race ''a'') = None
   \<and> fs (snd (connect env_race ''a'' (world_of used_session))) (initpath env_race ''a'') \<noteq> None
   \<and> fs (world_of used_session) (basepath env_race ''a'' @ [''history.old'']) = None
   \<and> fs (snd (connect env_race ''a'' (world_of used_session))) (basepath env_race ''a'' @ [''history.old''])
       = Some (File ''ls\<newline>'')"
  by (simp add: run_steps fs_steps session_paths examples)

text \<open>No exit code of the child makes the status that \<^verbatim>\<open>pty.spawn\<close> returns equal to 200.\<close>

lemma waitstatus_exit_not_200: "waitstatus (ExitCode c) \<noteq> 200"
proof
  assume "waitstatus (ExitCode c) = 200"
  then have "256 * int (c mod 256) = 200" by simp
  then have "(256 * int (c mod 256)) mod 256 = (200::int) mod 256" by (simp only:)
  then show False by simp
qed

text \<open>
  C6. The command ends with exit code 200, the code flock gives for a lock that is taken.
  \<open>run\<close> compares the wait status, 51200, with 200: log and history are rotated, nothing
  is written to standard error, and the program returns.
\<close>

theorem sentinel_exit_still_rotates:
  "ended (spawn env_race (command_bash (lockpath env_race ''a'') ''/bin/bash'' (initpath env_race ''a'')))
     = ExitCode 200
   \<and> waitstatus (ExitCode 200) = 51200
   \<and> fst (connect env_race ''a'' (world_of used_session)) = Returned
   \<and> fs (snd (connect env_race ''a'' (world_of used_session))) (basepath env_race ''a'' @ [''log.old''])
       = Some (File ''hi\<newline>'')
   \<and> fs (snd (connect env_race ''a'' (world_of used_session))) (basepath env_race ''a'' @ [''history.old''])
       = Some (File ''ls\<newline>'')
   \<and> err (snd (connect env_race ''a'' (world_of used_session))) = []"
  by (simp add: run_steps fs_steps session_paths examples)

section \<open>Disconnecting without a history\<close>

lemma mkdir_from_changes:
  "mkdir_from pre cs f = Inr f' \<Longrightarrow> f' q \<noteq> f q \<Longrightarrow> \<exists>k. q = pre @ take k cs"
proof (induction cs arbitrary: pre f)
  case Nil
  then show ?case by simp
next
  case (Cons c cs)
  show ?case
  proof (cases "f (pre @ [c])")
    case None
    then have m: "mkdir_from (pre @ [c]) cs (f(pre @ [c] \<mapsto> Dir)) = Inr f'"
      using Cons.prems(1) by simp
    show ?thesis
    proof (cases "f' q = (f(pre @ [c] \<mapsto> Dir)) q")
      case True
      then have "q = pre @ take (Suc 0) (c # cs)"
        using Cons.prems(2) by (auto split: if_splits)
      then show ?thesis by blast
    next
      case False
      then obtain k where "q = (pre @ [c]) @ take k cs"
        using Cons.IH [OF m] by blast
      then have "q = pre @ take (Suc k) (c # cs)" by simp
      then show ?thesis by blast
    qed
  next
    case (Some n)
    show ?thesis
    proof (cases n)
      case Dir
      then have m: "mkdir_from (pre @ [c]) cs f = Inr f'"
        using Cons.prems(1) Some by simp
      then obtain k where "q = (pre @ [c]) @ take k cs"
        using Cons.IH [OF m Cons.prems(2)] by blast
      then have "q = pre @ take (Suc k) (c # cs)" by simp
      then show ?thesis by blast
    next
      case (File bs)
      then show ?thesis using Cons.prems(1) Some by simp
    qed
  qed
qed

lemma move_elsewhere:
  assumes "move p oldpath f = Inr f1"
    and "\<not> below p h" and "\<not> below oldpath h" and "\<not> below h oldpath"
  shows "f1 h = f h"
proof (cases "is_dir f oldpath \<and> p = oldpath")
  case True
  then show ?thesis using assms(1) by (simp add: move_def)
next
  case False
  define real where "real = (if is_dir f oldpath then oldpath @ [last p] else oldpath)"
  have hp: "h \<noteq> p" using assms(2) by (auto simp: below_def)
  have hr: "\<not> below real h" using assms(3) by (auto simp: real_def below_def dest: arg_cong [where f = "take (length oldpath)"])
  then have hr': "h \<noteq> real" by (auto simp: below_def)
  show ?thesis
  proof (cases "f p")
    case None
    then show ?thesis using assms(1) False by (simp add: move_def Let_def split: if_splits)
  next
    case (Some n)
    show ?thesis
    proof (cases n)
      case (File bs)
      then show ?thesis
        using assms(1) False Some hp hr'
        by (auto simp: move_def Let_def real_def split: if_splits option.splits)
    next
      case Dir
      then obtain f' where m: "mkdir_parents (parent real) f = Inr f'" and r: "f1 = reroot p real f'"
        using assms(1) False Some
        by (auto simp: move_def Let_def real_def split: if_splits sum.splits)
      have "f' h = f h"
      proof (rule ccontr)
        assume "f' h \<noteq> f h"
        then obtain k where k: "h = take k (parent real)"
          using mkdir_from_changes [of "[]" "parent real" f f' h] m
          by (auto simp: mkdir_parents_def)
        have "h = take (min k (length real - 1)) real"
          unfolding k parent_def by (simp add: butlast_conv_take min.commute)
        then obtain j where j: "h = take j real" by blast
        have pre: "\<And>i xs :: path. below (take i xs) xs"
          by (simp add: below_def min_def)
        show False
        proof (cases "is_dir f oldpath \<and> length oldpath < j")
          case True
          then have "length real \<le> j" by (simp add: real_def)
          then have "take j real = real" by simp
          then have "h = oldpath @ [last p]" using j True by (simp only: real_def if_True)
          then show False using assms(3) by (simp add: below_def)
        next
          case False
          then have "h = take j oldpath" using j by (auto simp: real_def)
          then show False using assms(4) pre by simp
        qed
      qed
      then show ?thesis using r hr assms(2) by (simp add: reroot_def)
    qed
  qed
qed

lemma truncate_elsewhere:
  assumes "\<not> below p h" and "\<not> below oldpath h" and "\<not> below h oldpath"
  shows "snd (truncate p oldpath sz f) h = f h"
proof (cases "move p oldpath f")
  case (Inl x)
  then show ?thesis by (simp add: truncate_def)
next
  case (Inr f1)
  have hp: "h \<noteq> p" using assms(1) by (auto simp: below_def)
  have m: "f1 h = f h" using Inr assms by (rule move_elsewhere)
  show ?thesis
    using Inr m hp by (auto simp: truncate_def write_file_def split: sum.splits option.splits)
qed

lemma move_missing:
  assumes "f p = None" and "p \<noteq> []" and "p \<noteq> oldpath"
  shows "\<exists>x. move p oldpath f = Inl x"
  using assms by (simp add: move_def Let_def)

lemma history_apart:
  "\<not> below (logpath e label) (historypath e label)"
  "\<not> below (basepath e label @ [''log.old'']) (historypath e label)"
  "\<not> below (historypath e label) (basepath e label @ [''log.old''])"
  by (simp_all add: below_def logpath_def historypath_def)

text \<open>
  C9. When the status is not 200 and the session has no history file (or no log file),
  \<open>disconnect\<close> raises: either the rotation of the log raises, or the log is rotated and
  \<^verbatim>\<open>shutil.move\<close> of the history raises; the file system stays as the rotation of the log
  left it. So \<open>disconnect\<close> returns normally only when both files exist.
\<close>

theorem disconnect_without_history_raises:
  assumes "status \<noteq> 200"
    and "fs w (logpath e label) = None \<or> fs w (historypath e label) = None"
  shows "\<exists>x f1. disconnect e label status w = (Raised x, w\<lparr>fs := f1\<rparr>) \<and>
           (truncate (logpath e label) (basepath e label @ [''log.old'']) logsize (fs w) = (Some x, f1)
            \<or> (truncate (logpath e label) (basepath e label @ [''log.old'']) logsize (fs w) = (None, f1)
                \<and> move (historypath e label) (basepath e label @ [''history.old'']) f1 = Inl x))"
proof -
  obtain r f1 where t: "truncate (logpath e label) (basepath e label @ [''log.old'']) logsize (fs w) = (r, f1)"
    by (cases "truncate (logpath e label) (basepath e label @ [''log.old'']) logsize (fs w)")
  show ?thesis
  proof (cases r)
    case (Some x)
    then show ?thesis using t assms(1) by (simp add: disconnect_def)
  next
    case None
    have lg: "fs w (logpath e label) \<noteq> None"
    proof
      assume "fs w (logpath e label) = None"
      then obtain x where "move (logpath e label) (basepath e label @ [''log.old'']) (fs w) = Inl x"
        using move_missing [of "fs w" "logpath e label" "basepath e label @ [''log.old'']"]
        by (auto simp: logpath_def)
      then show False using t None by (simp add: truncate_def)
    qed
    have h: "fs w (historypath e label) = None"
    proof (rule disjE [OF assms(2)])
      assume "fs w (logpath e label) = None"
      with lg show ?thesis by (rule notE)
    next
      assume "fs w (historypath e label) = None"
      then show ?thesis .
    qed
    have "f1 (historypath e label) = fs w (historypath e label)"
      using truncate_elsewhere [OF history_apart, of e label logsize "fs w"] t by simp
    then have "f1 (historypath e label) = None" using h by simp
    then obtain x where m: "move (historypath e label) (basepath e label @ [''history.old'']) f1 = Inl x"
      using move_missing [of f1 "historypath e label" "basepath e label @ [''history.old'']"]
      by (auto simp: historypath_def)
    then have "truncate (historypath e label) (basepath e label @ [''history.old'']) historysize f1
                 = (Some x, f1)"
      by (simp add: truncate_def)
    then show ?thesis using t None m assms(1) by (simp add: disconnect_def)
  qed
qed

theorem disconnect_without_history_raises_witness:
  "(\<exists>x f1. disconnect env_bash ''a'' 0 (world_of fresh_session)
              = (Raised x, (world_of fresh_session)\<lparr>fs := f1\<rparr>) \<and>
           (truncate (logpath env_bash ''a'') (basepath env_bash ''a'' @ [''log.old'']) logsize
              (fs (world_of fresh_session)) = (Some x, f1)
            \<or> (truncate (logpath env_bash ''a'') (basepath env_bash ''a'' @ [''log.old'']) logsize
                 (fs (world_of fresh_session)) = (None, f1)
                \<and> move (historypath env_bash ''a'') (basepath env_bash ''a'' @ [''history.old'']) f1 = Inl x)))
   \<and> fst (disconnect env_bash ''a'' 0 (world_of fresh_session)) = Raised FileNotFoundError"
proof (rule conjI)
  show "\<exists>x f1. disconnect env_bash ''a'' 0 (world_of fresh_session)
              = (Raised x, (world_of fresh_session)\<lparr>fs := f1\<rparr>) \<and>
           (truncate (logpath env_bash ''a'') (basepath env_bash ''a'' @ [''log.old'']) logsize
              (fs (world_of fresh_session)) = (Some x, f1)
            \<or> (truncate (logpath env_bash ''a'') (basepath env_bash ''a'' @ [''log.old'']) logsize
                 (fs (world_of fresh_session)) = (None, f1)
                \<and> move (historypath env_bash ''a'') (basepath env_bash ''a'' @ [''history.old'']) f1 = Inl x))"
    by (rule disconnect_without_history_raises) (simp_all add: session_paths examples)
  show "fst (disconnect env_bash ''a'' 0 (world_of fresh_session)) = Raised FileNotFoundError"
    by (simp add: disconnect_def fs_steps session_paths examples logsize_def historysize_def)
qed

end
